theory Spec2Isabelle
  imports Main "HOL-Library.AList" "HOL-Library.Word"
begin

section \<open>Data model of the in-memory URL store\<close>

text \<open>
  A JavaScript \<open>Date\<close> is modelled by its time value, the number of milliseconds since the
  epoch, as an \<open>int\<close>; comparing two dates with \<open>>\<close> compares these numbers.
  Every reading of the clock (\<open>new Date()\<close>, \<open>Date.now()\<close>) that a function makes is an
  explicit argument of its model, in the order of the readings.
\<close>

type_synonym date = int

text \<open>One element of \<open>url.clicks\<close>, as built by \<open>addClick\<close>.\<close>

record click =
  timestamp :: date
  userAgent :: string
  ip :: string
  referer :: string

text \<open>
  The \<open>clickData\<close> argument of \<open>addClick\<close>: each property is a string or is missing
  (\<open>undefined\<close>).
\<close>

record click_data =
  cd_userAgent :: "string option"
  cd_ip :: "string option"
  cd_referer :: "string option"

text \<open>The object \<open>urlEntry\<close> stored in \<open>this.urls\<close> (its field \<open>id\<close> is \<open>entry_id\<close> here).\<close>

record url_entry =
  entry_id :: string
  shortcode :: string
  originalUrl :: string
  expiresAt :: date
  createdAt :: date
  clicks :: "click list"

text \<open>The object stored in \<open>this.analytics\<close>.\<close>

record analytics_entry =
  totalClicks :: nat
  uniqueClicks :: nat

text \<open>The object returned by \<open>getAnalytics\<close>.\<close>

record analytics_report =
  rep_shortcode :: string
  rep_originalUrl :: string
  rep_createdAt :: date
  rep_expiresAt :: date
  rep_totalClicks :: nat
  rep_uniqueClicks :: nat
  rep_clicks :: "click list"

text \<open>
  The two \<open>Map\<close>s of \<open>InMemoryStore\<close>. A JavaScript \<open>Map\<close> keeps its keys in insertion
  order, \<open>set\<close> on a present key replaces the value in place and \<open>delete\<close> removes the
  key: an association list with \<open>AList.update\<close>, \<open>AList.delete\<close> and \<open>map_of\<close>.
\<close>

record store =
  urls :: "(string \<times> url_entry) list"
  analytics :: "(string \<times> analytics_entry) list"

definition empty_store :: store where
  "empty_store = \<lparr>urls = [], analytics = []\<rparr>"

text \<open>
  Every \<open>throw\<close> of the modelled code is a value; \<open>message\<close> is the \<open>Error\<close>'s message.
  \<open>TypeError\<close> is what reading a property of \<open>undefined\<close> raises; of its message, which
  the engine words, only the beginning is kept.
\<close>

datatype error =
    ShortcodeAlreadyExists
  | CustomShortcodeAlreadyExists
  | CustomShortcodeFormat
  | InvalidUrlFormat
  | ExhaustedAttempts
  | TypeError

datatype 'a outcome = Returned 'a | Threw error

fun message :: "error \<Rightarrow> string" where
  "message ShortcodeAlreadyExists = ''Shortcode already exists''"
| "message CustomShortcodeAlreadyExists = ''Custom shortcode already exists''"
| "message CustomShortcodeFormat =
     ''Custom shortcode must be alphanumeric and between 3-20 characters''"
| "message InvalidUrlFormat = ''Invalid URL format''"
| "message ExhaustedAttempts = ''Unable to generate unique shortcode after maximum attempts''"
| "message TypeError = ''Cannot read properties of undefined''"

section \<open>InMemoryStore\<close>

text \<open>
  The pair of statements \<open>this.urls.delete(shortcode); this.analytics.delete(shortcode)\<close>,
  which \<open>findByShortcode\<close>, \<open>addClick\<close>, \<open>getAnalytics\<close> and \<open>cleanupExpired\<close> all run.
\<close>

definition evict :: "string \<Rightarrow> store \<Rightarrow> store" where
  "evict sc s = s\<lparr>urls := AList.delete sc (urls s), analytics := AList.delete sc (analytics s)\<rparr>"

text \<open>
  \<open>create(data)\<close>, with \<open>data\<close> destructured into its three properties; \<open>exp\<close> is \<open>None\<close>
  when \<open>data.expiresAt\<close> is missing. \<open>tdefault\<close> is the reading of \<open>Date.now()\<close> (made only
  when \<open>exp\<close> is missing), \<open>tcreated\<close> the reading of \<open>new Date()\<close> for \<open>createdAt\<close>.
\<close>

definition create ::
  "store \<Rightarrow> date \<Rightarrow> date \<Rightarrow> string \<Rightarrow> string \<Rightarrow> date option \<Rightarrow> url_entry outcome \<times> store" where
  "create s tdefault tcreated sc url exp =
     (if map_of (urls s) sc \<noteq> None then (Threw ShortcodeAlreadyExists, s)
      else
        let urlEntry = \<lparr>entry_id = sc, shortcode = sc, originalUrl = url,
                         expiresAt = (case exp of Some e \<Rightarrow> e
                                      | None \<Rightarrow> tdefault + 30 * 60 * 1000),
                         createdAt = tcreated, clicks = []\<rparr>
        in (Returned urlEntry,
            s\<lparr>urls := AList.update sc urlEntry (urls s),
              analytics := AList.update sc \<lparr>totalClicks = 0, uniqueClicks = 0\<rparr> (analytics s)\<rparr>))"

text \<open>\<open>findByShortcode(shortcode)\<close>; \<open>None\<close> is \<open>null\<close>, \<open>now\<close> the reading of \<open>new Date()\<close>.\<close>

definition findByShortcode :: "store \<Rightarrow> date \<Rightarrow> string \<Rightarrow> url_entry option \<times> store" where
  "findByShortcode s now sc =
     (case map_of (urls s) sc of
        None \<Rightarrow> (None, s)
      | Some url \<Rightarrow>
          if now > expiresAt url then (None, evict sc s)
          else (Some url, s))"

text \<open>
  \<open>x || ''\<close> on a string or \<open>undefined\<close>: the empty string is falsy too, and gives \<open>''\<close>
  either way.
\<close>

definition or_empty :: "string option \<Rightarrow> string" where
  "or_empty x = (case x of None \<Rightarrow> [] | Some v \<Rightarrow> v)"

text \<open>The object literal \<open>click\<close> that \<open>addClick\<close> builds from \<open>clickData\<close>.\<close>

definition new_click :: "date \<Rightarrow> click_data \<Rightarrow> click" where
  "new_click tstamp clickData =
     \<lparr>timestamp = tstamp,
      userAgent = or_empty (cd_userAgent clickData),
      ip = or_empty (cd_ip clickData),
      referer = or_empty (cd_referer clickData)\<rparr>"

text \<open>
  \<open>addClick(shortcode, clickData)\<close>. \<open>tcheck\<close> is the clock reading of the expiry test,
  \<open>tstamp\<close> the one stored in the click. The push onto \<open>url.clicks\<close> happens before the
  analytics entry is read, so when that entry is missing the \<open>TypeError\<close> leaves the push
  behind.
\<close>

definition addClick ::
  "store \<Rightarrow> date \<Rightarrow> date \<Rightarrow> string \<Rightarrow> click_data \<Rightarrow> bool outcome \<times> store" where
  "addClick s tcheck tstamp sc clickData =
     (case map_of (urls s) sc of
        None \<Rightarrow> (Returned False, s)
      | Some url \<Rightarrow>
          if tcheck > expiresAt url then (Returned False, evict sc s)
          else
            let c = new_click tstamp clickData;
                url' = url\<lparr>clicks := clicks url @ [c]\<rparr>;
                s1 = s\<lparr>urls := AList.update sc url' (urls s)\<rparr>
            in (case map_of (analytics s1) sc of
                  None \<Rightarrow> (Threw TypeError, s1)
                | Some a \<Rightarrow>
                    let a1 = a\<lparr>totalClicks := totalClicks a + 1\<rparr>;
                        a2 = a1\<lparr>uniqueClicks := card (set (map ip (clicks url')))\<rparr>
                    in (Returned True, s1\<lparr>analytics := AList.update sc a2 (analytics s1)\<rparr>)))"

text \<open>\<open>getAnalytics(shortcode)\<close>; \<open>Returned None\<close> is \<open>null\<close>.\<close>

definition getAnalytics ::
  "store \<Rightarrow> date \<Rightarrow> string \<Rightarrow> analytics_report option outcome \<times> store" where
  "getAnalytics s now sc =
     (case map_of (urls s) sc of
        None \<Rightarrow> (Returned None, s)
      | Some url \<Rightarrow>
          if now > expiresAt url then (Returned None, evict sc s)
          else
            (case map_of (analytics s) sc of
               None \<Rightarrow> (Threw TypeError, s)
             | Some a \<Rightarrow>
                 (Returned (Some \<lparr>rep_shortcode = sc,
                                  rep_originalUrl = originalUrl url,
                                  rep_createdAt = createdAt url,
                                  rep_expiresAt = expiresAt url,
                                  rep_totalClicks = totalClicks a,
                                  rep_uniqueClicks = uniqueClicks a,
                                  rep_clicks = clicks url\<rparr>), s)))"

text \<open>
  \<open>cleanupExpired()\<close>: the first loop collects the expired keys in the order of the map,
  \<open>forEach\<close> then deletes each from both maps; the result is the number collected.
\<close>

definition cleanupExpired :: "store \<Rightarrow> date \<Rightarrow> nat \<times> store" where
  "cleanupExpired s now =
     (let expired = map fst (filter (\<lambda>(sc, url). now > expiresAt url) (urls s))
      in (length expired, fold evict expired s))"

text \<open>
  A call of one of the five store operations, with its arguments and its clock readings;
  the result of a call; \<open>perform\<close> makes one call, \<open>run_trace\<close> a sequence of calls from
  left to right, collecting the results, and \<open>run\<close> is the store the sequence leaves.
\<close>

datatype store_op =
    Create date date string string "date option"
  | FindByShortcode date string
  | AddClick date date string click_data
  | GetAnalytics date string
  | CleanupExpired date

datatype op_result =
    Created "url_entry outcome"
  | Found "url_entry option"
  | Clicked "bool outcome"
  | Analytics "analytics_report option outcome"
  | Cleaned nat

fun perform :: "store_op \<Rightarrow> store \<Rightarrow> op_result \<times> store" where
  "perform (Create tdefault tcreated sc url exp) s =
     (Created (fst (create s tdefault tcreated sc url exp)),
      snd (create s tdefault tcreated sc url exp))"
| "perform (FindByShortcode now sc) s =
     (Found (fst (findByShortcode s now sc)), snd (findByShortcode s now sc))"
| "perform (AddClick tcheck tstamp sc clickData) s =
     (Clicked (fst (addClick s tcheck tstamp sc clickData)),
      snd (addClick s tcheck tstamp sc clickData))"
| "perform (GetAnalytics now sc) s =
     (Analytics (fst (getAnalytics s now sc)), snd (getAnalytics s now sc))"
| "perform (CleanupExpired now) s =
     (Cleaned (fst (cleanupExpired s now)), snd (cleanupExpired s now))"

fun run_trace :: "store_op list \<Rightarrow> store \<Rightarrow> op_result list \<times> store" where
  "run_trace [] s = ([], s)"
| "run_trace (op # ops) s =
     (fst (perform op s) # fst (run_trace ops (snd (perform op s))),
      snd (run_trace ops (snd (perform op s))))"

definition run :: "store_op list \<Rightarrow> store \<Rightarrow> store" where
  "run ops s = snd (run_trace ops s)"

text \<open>
  The NotFound results: \<open>null\<close> from \<open>findByShortcode\<close> and \<open>getAnalytics\<close>, \<open>false\<close> from
  \<open>addClick\<close>.
\<close>

fun not_found :: "op_result \<Rightarrow> bool" where
  "not_found (Found None) = True"
| "not_found (Clicked (Returned False)) = True"
| "not_found (Analytics (Returned None)) = True"
| "not_found _ = False"

text \<open>
  \<open>lookup_after sc t op\<close>: the call \<open>op\<close> is a \<open>findByShortcode\<close>, \<open>addClick\<close> or
  \<open>getAnalytics\<close> for the shortcode \<open>sc\<close> whose expiry test reads the clock after \<open>t\<close>.
\<close>

fun lookup_after :: "string \<Rightarrow> date \<Rightarrow> store_op \<Rightarrow> bool" where
  "lookup_after sc t (FindByShortcode now k) = (k = sc \<and> t < now)"
| "lookup_after sc t (AddClick tcheck tstamp k clickData) = (k = sc \<and> t < tcheck)"
| "lookup_after sc t (GetAnalytics now k) = (k = sc \<and> t < now)"
| "lookup_after sc t _ = False"

text \<open>
  \<open>click_while_live t op\<close>: the call \<open>op\<close> is an \<open>addClick\<close> for \<open>sc\<close> whose expiry test
  reads a time not after \<open>t\<close>; \<open>click_of\<close> is the click such a call appends.
\<close>

fun click_while_live :: "string \<Rightarrow> date \<Rightarrow> store_op \<Rightarrow> bool" where
  "click_while_live sc t (AddClick tcheck tstamp k clickData) = (k = sc \<and> tcheck \<le> t)"
| "click_while_live sc t _ = False"

fun click_of :: "store_op \<Rightarrow> click" where
  "click_of (AddClick tcheck tstamp k clickData) = new_click tstamp clickData"
| "click_of _ = new_click 0 \<lparr>cd_userAgent = None, cd_ip = None, cd_referer = None\<rparr>"

text \<open>
  The relation between the two maps that every operation keeps: they have the same
  keys, and the analytics entry of a key holds the counts of that key's click log.
\<close>

definition counts_agree :: "url_entry \<Rightarrow> analytics_entry \<Rightarrow> bool" where
  "counts_agree u a =
     (totalClicks a = length (clicks u) \<and> uniqueClicks a = card (set (map ip (clicks u))))"

definition store_inv :: "store \<Rightarrow> bool" where
  "store_inv s =
     (\<forall>sc. rel_option counts_agree (map_of (urls s) sc) (map_of (analytics s) sc))"

section \<open>UrlService\<close>

text \<open>
  What the service takes from its environment: the platform's URL parser (\<open>new URL(url)\<close>,
  \<open>None\<close> when it throws, otherwise the \<open>protocol\<close> and the serialised \<open>href\<close>), the value
  of \<open>process.env.BASE_URL\<close> and the bytes that successive \<open>crypto.randomBytes(1)[0]\<close>
  calls deliver. The position in that byte sequence is threaded through the functions
  that draw from it.
\<close>

record env =
  parseUrl :: "string \<Rightarrow> (string \<times> string) option"
  base_url :: string
  randomBytes :: "nat \<Rightarrow> 8 word"

definition chars :: string where
  "chars = ''abcdefghijklmnopqrstuvwxyzABCDEFGHIJKLMNOPQRSTUVWXYZ0123456789''"

text \<open>\<open>generateShortcode(length)\<close>: one byte per character, reduced modulo \<open>chars.length\<close>.\<close>

definition generateShortcode :: "env \<Rightarrow> nat \<Rightarrow> nat \<Rightarrow> string \<times> nat" where
  "generateShortcode e pos len =
     (map (\<lambda>i. chars ! (unat (randomBytes e (pos + i)) mod length chars)) [0..<len],
      pos + len)"

text \<open>
  The loop of \<open>generateUniqueShortcode(maxAttempts)\<close> from the iteration \<open>attempt\<close> on.
  \<open>clk attempt\<close> is the clock reading of the lookup made in that iteration;
  \<open>generateShortcode()\<close> is called with its default length 6.
\<close>

function generateUniqueShortcode_loop ::
  "env \<Rightarrow> (nat \<Rightarrow> date) \<Rightarrow> nat \<Rightarrow> nat \<Rightarrow> store \<Rightarrow> nat \<Rightarrow> string outcome \<times> store \<times> nat" where
  "generateUniqueShortcode_loop e clk maxAttempts attempt s pos =
     (if attempt < maxAttempts then
        let g = generateShortcode e pos 6;
            f = findByShortcode s (clk attempt) (fst g)
        in if fst f = None then (Returned (fst g), snd f, snd g)
           else generateUniqueShortcode_loop e clk maxAttempts (attempt + 1) (snd f) (snd g)
      else (Threw ExhaustedAttempts, s, pos))"
  by pat_completeness auto
termination
  by (relation "measure (\<lambda>(e, clk, maxAttempts, attempt, s, pos). maxAttempts - attempt)") auto

declare generateUniqueShortcode_loop.simps [simp del]

text \<open>
  \<open>generateUniqueShortcode(maxAttempts = 10)\<close>; \<open>None\<close> is a call without the argument,
  for which the default parameter value applies.
\<close>

definition attempt_limit :: "nat option \<Rightarrow> nat" where
  "attempt_limit maxAttempts = (case maxAttempts of None \<Rightarrow> 10 | Some m \<Rightarrow> m)"

definition generateUniqueShortcode ::
  "env \<Rightarrow> (nat \<Rightarrow> date) \<Rightarrow> nat option \<Rightarrow> store \<Rightarrow> nat \<Rightarrow> string outcome \<times> store \<times> nat" where
  "generateUniqueShortcode e clk maxAttempts s pos =
     generateUniqueShortcode_loop e clk (attempt_limit maxAttempts) 0 s pos"

text \<open>
  \<open>validateAndNormalizeUrl(url)\<close>: the inner \<open>throw\<close> for a protocol other than http and
  https is caught by the function's own \<open>catch\<close>, which throws \<open>Invalid URL format\<close>.
\<close>

definition validateAndNormalizeUrl :: "env \<Rightarrow> string \<Rightarrow> string outcome" where
  "validateAndNormalizeUrl e url =
     (case parseUrl e url of
        None \<Rightarrow> Threw InvalidUrlFormat
      | Some (protocol, href) \<Rightarrow>
          if protocol \<notin> set [''http:'', ''https:''] then Threw InvalidUrlFormat
          else Returned href)"

text \<open>\<open>calculateExpiryDate(validityMinutes)\<close>, \<open>now\<close> being its reading of the clock.\<close>

definition calculateExpiryDate :: "date \<Rightarrow> int \<Rightarrow> date" where
  "calculateExpiryDate now validityMinutes = now + validityMinutes * 60 * 1000"

text \<open>The test \<open>/^[a-zA-Z0-9]{3,20}$/.test(c)\<close>.\<close>

definition alphanumeric :: "char \<Rightarrow> bool" where
  "alphanumeric c =
     (let n = (of_char c :: nat)
      in (97 \<le> n \<and> n \<le> 122) \<or> (65 \<le> n \<and> n \<le> 90) \<or> (48 \<le> n \<and> n \<le> 57))"

definition shortcode_format :: "string \<Rightarrow> bool" where
  "shortcode_format c = (3 \<le> length c \<and> length c \<le> 20 \<and> list_all alphanumeric c)"

text \<open>The object that the service's \<open>createShortUrl\<close> returns; the two dates stay time values.\<close>

record short_url =
  res_shortcode :: string
  res_originalUrl :: string
  res_shortUrl :: string
  res_expiresAt :: date
  res_createdAt :: date

text \<open>
  The clock readings of one \<open>createShortUrl\<close> call: the lookup of a custom shortcode, the
  lookups of the generation loop, \<open>calculateExpiryDate\<close>, and \<open>createdAt\<close> in the store's
  \<open>create\<close>.
\<close>

record create_clock =
  find_time :: date
  loop_time :: "nat \<Rightarrow> date"
  calc_time :: date
  create_time :: date

text \<open>
  The block of \<open>UrlService.createShortUrl\<close> that assigns \<open>shortcode\<close>: a custom shortcode
  that is missing or the empty string is falsy and selects the generated path.
\<close>

definition chooseShortcode ::
  "env \<Rightarrow> create_clock \<Rightarrow> store \<Rightarrow> nat \<Rightarrow> string option \<Rightarrow> string outcome \<times> store \<times> nat" where
  "chooseShortcode e clk s pos customShortcode =
     (case customShortcode of
        Some c \<Rightarrow>
          if c = [] then generateUniqueShortcode e (loop_time clk) None s pos
          else if \<not> shortcode_format c then (Threw CustomShortcodeFormat, s, pos)
          else
            let f = findByShortcode s (find_time clk) c
            in if fst f \<noteq> None then (Threw CustomShortcodeAlreadyExists, snd f, pos)
               else (Returned c, snd f, pos)
      | None \<Rightarrow> generateUniqueShortcode e (loop_time clk) None s pos)"

text \<open>
  \<open>UrlService.createShortUrl(data)\<close>. \<open>validity\<close> is \<open>None\<close> when \<open>data.validity\<close> is
  \<open>undefined\<close> (the default 30 applies). The store's \<open>create\<close> is always given an
  \<open>expiresAt\<close>, so it makes no \<open>Date.now()\<close> reading.
\<close>

definition UrlService_createShortUrl ::
  "env \<Rightarrow> create_clock \<Rightarrow> store \<Rightarrow> nat \<Rightarrow> string \<Rightarrow> int option \<Rightarrow> string option
     \<Rightarrow> short_url outcome \<times> store \<times> nat" where
  "UrlService_createShortUrl e clk s pos url validity customShortcode =
     (case validateAndNormalizeUrl e url of
        Threw err \<Rightarrow> (Threw err, s, pos)
      | Returned normalizedUrl \<Rightarrow>
          (case chooseShortcode e clk s pos customShortcode of
             (Threw err, s1, pos1) \<Rightarrow> (Threw err, s1, pos1)
           | (Returned sc, s1, pos1) \<Rightarrow>
               let expires = calculateExpiryDate (calc_time clk)
                               (case validity of None \<Rightarrow> 30 | Some v \<Rightarrow> v)
               in (case create s1 (create_time clk) (create_time clk) sc normalizedUrl
                          (Some expires) of
                     (Threw err, s2) \<Rightarrow> (Threw err, s2, pos1)
                   | (Returned urlDoc, s2) \<Rightarrow>
                       (Returned \<lparr>res_shortcode = sc,
                                  res_originalUrl = normalizedUrl,
                                  res_shortUrl = base_url e @ ''/'' @ sc,
                                  res_expiresAt = expires,
                                  res_createdAt = createdAt urlDoc\<rparr>, s2, pos1))))"

text \<open>\<open>getUrlByShortcode\<close> and the second \<open>recordClick\<close> (the one in effect) pass through.\<close>

definition getUrlByShortcode :: "store \<Rightarrow> date \<Rightarrow> string \<Rightarrow> url_entry option \<times> store" where
  "getUrlByShortcode s now sc = findByShortcode s now sc"

definition recordClick ::
  "store \<Rightarrow> date \<Rightarrow> date \<Rightarrow> string \<Rightarrow> click_data \<Rightarrow> bool outcome \<times> store" where
  "recordClick s tcheck tstamp sc clickData = addClick s tcheck tstamp sc clickData"

section \<open>UrlController\<close>

text \<open>
  A value of the JSON request body as far as \<open>validity\<close> is concerned: missing, a number
  (integers only in this model), or anything whose \<open>typeof\<close> is not \<open>number\<close>.
\<close>

datatype js_value = JUndefined | JNumber int | JOther

text \<open>
  \<open>req.body\<close> of \<open>POST /shorturls\<close>: \<open>url\<close> and \<open>shortcode\<close> are strings or missing.
\<close>

record create_body =
  body_url :: "string option"
  body_validity :: js_value
  body_shortcode :: "string option"

text \<open>What a handler sends: \<open>res.status(n).json(...)\<close> or \<open>res.redirect(url)\<close> (status 302).\<close>

datatype payload =
    ErrorJson string string
  | CreatedJson short_url
  | Location string

record response =
  status :: nat
  payload :: payload

text \<open>\<open>haystack.includes(needle)\<close> on strings.\<close>

fun str_includes :: "string \<Rightarrow> string \<Rightarrow> bool" where
  "str_includes [] needle = (needle = [])"
| "str_includes (c # cs) needle =
     (take (length needle) (c # cs) = needle \<or> str_includes cs needle)"

text \<open>
  \<open>UrlController.createShortUrl(req, res)\<close>, \<open>req.body\<close> being \<open>body\<close>. The validity that
  reaches the service is \<open>undefined\<close> or a number, the test before the call having sent
  400 for anything else.
\<close>

definition UrlController_createShortUrl ::
  "env \<Rightarrow> create_clock \<Rightarrow> store \<Rightarrow> nat \<Rightarrow> create_body \<Rightarrow> response \<times> store \<times> nat" where
  "UrlController_createShortUrl e clk s pos body =
     (case body_url body of
        None \<Rightarrow> (\<lparr>status = 400, payload = ErrorJson ''Bad Request'' ''URL is required''\<rparr>, s, pos)
      | Some url \<Rightarrow>
          if url = [] then
            (\<lparr>status = 400, payload = ErrorJson ''Bad Request'' ''URL is required''\<rparr>, s, pos)
          else if body_validity body \<noteq> JUndefined \<and>
                  (case body_validity body of
                     JNumber v \<Rightarrow> v \<le> 0 \<or> v > 10080
                   | _ \<Rightarrow> True) then
            (\<lparr>status = 400,
              payload = ErrorJson ''Bad Request''
                ''Validity must be a positive number (in minutes) and not exceed 10080 minutes (1 week)''\<rparr>,
             s, pos)
          else
            (case UrlService_createShortUrl e clk s pos url
                    (case body_validity body of JNumber v \<Rightarrow> Some v | _ \<Rightarrow> None)
                    (body_shortcode body) of
               (Returned result, s1, pos1) \<Rightarrow>
                 (\<lparr>status = 201, payload = CreatedJson result\<rparr>, s1, pos1)
             | (Threw err, s1, pos1) \<Rightarrow>
                 if str_includes (message err) ''already exists'' then
                   (\<lparr>status = 409, payload = ErrorJson ''Conflict'' (message err)\<rparr>, s1, pos1)
                 else if str_includes (message err) ''shortcode'' \<or> str_includes (message err) ''URL'' then
                   (\<lparr>status = 400, payload = ErrorJson ''Bad Request'' (message err)\<rparr>, s1, pos1)
                 else
                   (\<lparr>status = 500,
                     payload = ErrorJson ''Internal Server Error'' ''Failed to create short URL''\<rparr>,
                    s1, pos1)))"

text \<open>
  The clock readings of one redirect: the store's lookup, the controller's own expiry
  test, and the two readings of \<open>addClick\<close>.
\<close>

record redirect_clock =
  lookup_time :: date
  handler_time :: date
  click_check_time :: date
  click_stamp_time :: date

text \<open>
  \<open>UrlController.redirectToUrl(req, res)\<close>: \<open>sc\<close> is \<open>req.params.shortcode\<close>, \<open>clickData\<close>
  the object built from \<open>req.ip\<close> and the two request headers. An exception inside the
  \<open>try\<close> is answered with 500.
\<close>

definition redirectToUrl ::
  "redirect_clock \<Rightarrow> store \<Rightarrow> string \<Rightarrow> click_data \<Rightarrow> response \<times> store" where
  "redirectToUrl clk s sc clickData =
     (if sc = [] then
        (\<lparr>status = 400, payload = ErrorJson ''Bad Request'' ''Shortcode is required''\<rparr>, s)
      else
        (case getUrlByShortcode s (lookup_time clk) sc of
           (None, s1) \<Rightarrow>
             (\<lparr>status = 404, payload = ErrorJson ''Not Found'' ''Short URL not found''\<rparr>, s1)
         | (Some urlData, s1) \<Rightarrow>
             if handler_time clk > expiresAt urlData then
               (\<lparr>status = 410, payload = ErrorJson ''Gone'' ''Short URL has expired''\<rparr>, s1)
             else
               (case recordClick s1 (click_check_time clk) (click_stamp_time clk) sc clickData of
                  (Threw err, s2) \<Rightarrow>
                    (\<lparr>status = 500,
                      payload = ErrorJson ''Internal Server Error'' ''Failed to redirect''\<rparr>, s2)
                | (Returned success, s2) \<Rightarrow>
                    (\<lparr>status = 302, payload = Location (originalUrl urlData)\<rparr>, s2))))"

section \<open>A small store used in the examples\<close>

text \<open>
  The store after one \<open>create\<close> on the empty store, at time 0, of the shortcode
  \<open>abc123\<close> with \<open>expiresAt\<close> 1000, and the record that call stores.
\<close>

definition demo_entry :: url_entry where
  "demo_entry = \<lparr>entry_id = ''abc123'', shortcode = ''abc123'',
                  originalUrl = ''https://example.com/'', expiresAt = 1000,
                  createdAt = 0, clicks = []\<rparr>"

definition demo_store :: store where
  "demo_store = snd (create empty_store 0 0 ''abc123'' ''https://example.com/'' (Some 1000))"

text \<open>
  Three clicks on that record from two addresses, and the record they leave.
\<close>

definition demo_click_data :: "string \<Rightarrow> click_data" where
  "demo_click_data addr = \<lparr>cd_userAgent = None, cd_ip = Some addr, cd_referer = None\<rparr>"

definition demo_calls :: "store_op list" where
  "demo_calls =
     [AddClick 10 11 ''abc123'' (demo_click_data ''10.0.0.1''),
      AddClick 20 21 ''abc123'' (demo_click_data ''10.0.0.2''),
      AddClick 30 31 ''abc123'' (demo_click_data ''10.0.0.1'')]"

definition demo_ops :: "store_op list" where
  "demo_ops = Create 0 0 ''abc123'' ''https://example.com/'' (Some 1000) # demo_calls"

definition demo_clicked :: url_entry where
  "demo_clicked = demo_entry\<lparr>clicks :=
     [\<lparr>timestamp = 11, userAgent = [], ip = ''10.0.0.1'', referer = []\<rparr>,
      \<lparr>timestamp = 21, userAgent = [], ip = ''10.0.0.2'', referer = []\<rparr>,
      \<lparr>timestamp = 31, userAgent = [], ip = ''10.0.0.1'', referer = []\<rparr>]\<rparr>"

text \<open>Three lookups of the shortcode after the record's expiry at 1000.\<close>

definition demo_lookups :: "store_op list" where
  "demo_lookups =
     [GetAnalytics 1001 ''abc123'',
      AddClick 1002 1003 ''abc123'' (demo_click_data ''10.0.0.1''),
      FindByShortcode 5000 ''abc123'']"

text \<open>
  An environment whose random source delivers only the byte 0, so that every generated
  shortcode is \<open>aaaaaa\<close>, and whose URL parser knows one URL; a store in which \<open>aaaaaa\<close>
  is taken until time 1000; clock readings for one \<open>createShortUrl\<close> call.
\<close>

definition demo_env :: env where
  "demo_env =
     \<lparr>parseUrl = (\<lambda>u. if u = ''https://example.com/''
                        then Some (''https:'', ''https://example.com/'') else None),
      base_url = ''http://localhost:5000'',
      randomBytes = (\<lambda>n. 0)\<rparr>"

definition demo_taken :: store where
  "demo_taken = snd (create empty_store 0 0 ''aaaaaa'' ''https://example.com/'' (Some 1000))"

definition demo_clock :: create_clock where
  "demo_clock = \<lparr>find_time = 0, loop_time = int, calc_time = 0, create_time = 0\<rparr>"

text \<open>
  Clock readings for one \<open>createShortUrl\<close> call in which the clock advances by one
  millisecond between \<open>calculateExpiryDate\<close> and the store's \<open>create\<close>.
\<close>

definition demo_late_clock :: create_clock where
  "demo_late_clock = \<lparr>find_time = 0, loop_time = int, calc_time = 0, create_time = 1\<rparr>"

text \<open>A request body with a custom shortcode and the given \<open>validity\<close>.\<close>

definition demo_body :: "js_value \<Rightarrow> create_body" where
  "demo_body v = \<lparr>body_url = Some ''https://example.com/'', body_validity = v,
                   body_shortcode = Some ''abc12''\<rparr>"

section \<open>Basic facts about the two maps\<close>

lemma demo_store_eq:
  "demo_store = \<lparr>urls = [(''abc123'', demo_entry)],
                  analytics = [(''abc123'', \<lparr>totalClicks = 0, uniqueClicks = 0\<rparr>)]\<rparr>"
  by (simp add: demo_store_def demo_entry_def create_def empty_store_def Let_def)

lemma urls_evict: "map_of (urls (evict sc s)) k = (if k = sc then None else map_of (urls s) k)"
  by (simp add: evict_def delete_conv)

lemma analytics_evict:
  "map_of (analytics (evict sc s)) k = (if k = sc then None else map_of (analytics s) k)"
  by (simp add: evict_def delete_conv)

lemma urls_fold_evict:
  "map_of (urls (fold evict ks s)) k = (if k \<in> set ks then None else map_of (urls s) k)"
  by (induction ks arbitrary: s) (auto simp: urls_evict)

lemma analytics_fold_evict:
  "map_of (analytics (fold evict ks s)) k =
     (if k \<in> set ks then None else map_of (analytics s) k)"
  by (induction ks arbitrary: s) (auto simp: analytics_evict)

section \<open>The two maps stay in step\<close>

lemma store_inv_empty: "store_inv empty_store"
  by (simp add: store_inv_def empty_store_def)

lemma store_inv_evict: "store_inv s \<Longrightarrow> store_inv (evict sc s)"
  by (simp add: store_inv_def urls_evict analytics_evict)

lemma store_inv_fold_evict: "store_inv s \<Longrightarrow> store_inv (fold evict ks s)"
  by (simp add: store_inv_def urls_fold_evict analytics_fold_evict)

lemma store_inv_create: "store_inv s \<Longrightarrow> store_inv (snd (create s td tc sc url exp))"
  by (simp add: store_inv_def create_def Let_def update_conv' counts_agree_def)

lemma store_inv_findByShortcode: "store_inv s \<Longrightarrow> store_inv (snd (findByShortcode s now sc))"
  by (simp add: findByShortcode_def store_inv_evict split: option.splits)

lemma store_inv_getAnalytics: "store_inv s \<Longrightarrow> store_inv (snd (getAnalytics s now sc))"
  by (simp add: getAnalytics_def store_inv_evict split: option.splits)

lemma store_inv_cleanupExpired: "store_inv s \<Longrightarrow> store_inv (snd (cleanupExpired s now))"
  by (simp add: cleanupExpired_def Let_def store_inv_fold_evict)

lemma store_inv_lookup:
  assumes "store_inv s" and "map_of (urls s) sc = Some u"
  shows "\<exists>a. map_of (analytics s) sc = Some a \<and> counts_agree u a"
proof -
  from assms(1) have "rel_option counts_agree (map_of (urls s) sc) (map_of (analytics s) sc)"
    by (simp add: store_inv_def)
  with assms(2) show ?thesis
    by (cases "map_of (analytics s) sc") simp_all
qed

lemma addClick_live:
  assumes "map_of (urls s) sc = Some u" and "map_of (analytics s) sc = Some a"
    and "\<not> tcheck > expiresAt u"
  shows "addClick s tcheck tstamp sc cd =
    (Returned True,
     s\<lparr>urls := AList.update sc (u\<lparr>clicks := clicks u @ [new_click tstamp cd]\<rparr>) (urls s),
       analytics := AList.update sc
          (a\<lparr>totalClicks := totalClicks a + 1,
             uniqueClicks := card (set (map ip (clicks u @ [new_click tstamp cd])))\<rparr>)
          (analytics s)\<rparr>)"
  using assms by (simp add: addClick_def Let_def)

lemma store_inv_addClick:
  assumes "store_inv s"
  shows "store_inv (snd (addClick s tcheck tstamp sc cd))"
proof (cases "map_of (urls s) sc")
  case None
  then show ?thesis using assms by (simp add: addClick_def)
next
  case (Some u)
  then obtain a where a: "map_of (analytics s) sc = Some a" "counts_agree u a"
    using store_inv_lookup [OF assms] by blast
  show ?thesis
  proof (cases "tcheck > expiresAt u")
    case True
    then show ?thesis using Some assms by (simp add: addClick_def store_inv_evict)
  next
    case False
    then show ?thesis
      using assms a(2) unfolding addClick_live [OF Some a(1) False]
      by (simp add: store_inv_def update_conv' counts_agree_def)
  qed
qed

lemma store_inv_perform: "store_inv s \<Longrightarrow> store_inv (snd (perform op s))"
  by (cases op)
    (simp_all add: store_inv_create store_inv_findByShortcode store_inv_addClick
       store_inv_getAnalytics store_inv_cleanupExpired)

lemma store_inv_run: "store_inv s \<Longrightarrow> store_inv (run ops s)"
  unfolding run_def by (induction ops arbitrary: s) (simp_all add: store_inv_perform)

lemma store_inv_reachable: "store_inv (run ops empty_store)"
  by (rule store_inv_run [OF store_inv_empty])

lemma store_inv_keys:
  assumes "store_inv s"
  shows "fst ` set (urls s) = fst ` set (analytics s)"
proof -
  have "dom (map_of (urls s)) = dom (map_of (analytics s))"
  proof (rule set_eqI)
    fix k
    from assms have "rel_option counts_agree (map_of (urls s) k) (map_of (analytics s) k)"
      by (simp add: store_inv_def)
    then show "(k \<in> dom (map_of (urls s))) = (k \<in> dom (map_of (analytics s)))"
      by (cases "map_of (urls s) k"; cases "map_of (analytics s) k") auto
  qed
  then show ?thesis by (simp add: dom_map_of_conv_image_fst)
qed

section \<open>Liveness of a stored record\<close>

lemma findByShortcode_present:
  assumes "map_of (urls s) sc = Some r"
  shows "findByShortcode s now sc =
           (if now > expiresAt r then (None, evict sc s) else (Some r, s))"
  using assms by (simp add: findByShortcode_def)

text \<open>
  C4, as the code has it: for a stored record, \<open>findByShortcode\<close> returns the record
  exactly when the clock reading is not after \<open>expiresAt\<close> (\<open>now \<le> expiresAt\<close>), and then
  leaves the store as it is; it returns \<open>null\<close> exactly when \<open>now > expiresAt\<close>, and then,
  and only then, has deleted the shortcode from both maps. At the instant
  \<open>now = expiresAt\<close> the record is still returned.
\<close>

theorem findByShortcode_live_iff:
  assumes "map_of (urls s) sc = Some r"
  shows "(fst (findByShortcode s now sc) = Some r) = (now \<le> expiresAt r) \<and>
         (fst (findByShortcode s now sc) = None) = (expiresAt r < now) \<and>
         (map_of (urls (snd (findByShortcode s now sc))) sc = None) = (expiresAt r < now) \<and>
         (now \<le> expiresAt r \<longrightarrow> findByShortcode s now sc = (Some r, s)) \<and>
         (expiresAt r < now \<longrightarrow>
            findByShortcode s now sc =
              (None, s\<lparr>urls := AList.delete sc (urls s),
                        analytics := AList.delete sc (analytics s)\<rparr>) \<and>
            map_of (analytics (snd (findByShortcode s now sc))) sc = None)"
proof (cases "expiresAt r < now")
  case True
  then have "findByShortcode s now sc = (None, evict sc s)"
    using assms by (simp add: findByShortcode_present)
  with True show ?thesis
    by (simp add: urls_evict analytics_evict) (simp add: evict_def)
next
  case False
  then have "findByShortcode s now sc = (Some r, s)"
    using assms by (simp add: findByShortcode_present)
  with False assms show ?thesis by simp
qed

theorem findByShortcode_live_iff_witness:
  "map_of (urls demo_store) ''abc123'' = Some demo_entry \<and>
   1000 \<le> expiresAt demo_entry \<and>
   findByShortcode demo_store 1000 ''abc123'' = (Some demo_entry, demo_store) \<and>
   expiresAt demo_entry < 1001 \<and>
   findByShortcode demo_store 1001 ''abc123'' = (None, empty_store) \<and>
   map_of (urls (snd (findByShortcode demo_store 1001 ''abc123''))) ''abc123'' = None \<and>
   map_of (analytics (snd (findByShortcode demo_store 1001 ''abc123''))) ''abc123'' = None"
proof -
  have stored: "map_of (urls demo_store) ''abc123'' = Some demo_entry"
    by (simp add: demo_store_eq)
  have exp: "expiresAt demo_entry = 1000" by (simp add: demo_entry_def)
  have ev: "demo_store\<lparr>urls := AList.delete ''abc123'' (urls demo_store),
                        analytics := AList.delete ''abc123'' (analytics demo_store)\<rparr>
              = empty_store"
    by (simp add: demo_store_eq empty_store_def)
  from findByShortcode_live_iff [OF stored, of 1000] exp
  have live: "findByShortcode demo_store 1000 ''abc123'' = (Some demo_entry, demo_store)"
    by simp
  from findByShortcode_live_iff [OF stored, of 1001] exp ev
  have gone: "findByShortcode demo_store 1001 ''abc123'' = (None, empty_store)"
    by simp
  from stored exp live gone show ?thesis by (simp add: empty_store_def)
qed

text \<open>
  C4 as stated fails at the instant of expiry: the record with \<open>expiresAt = 1000\<close> is
  stored, \<open>1000 < expiresAt\<close> is false, and the lookup at time 1000 returns the record.
\<close>

theorem findByShortcode_at_expiry_counterexample:
  "map_of (urls demo_store) ''abc123'' = Some demo_entry \<and>
   fst (findByShortcode demo_store 1000 ''abc123'') = Some demo_entry \<and>
   \<not> (1000 < expiresAt demo_entry)"
  by (simp add: demo_store_eq findByShortcode_def demo_entry_def)

section \<open>Invariant of the two maps\<close>

lemma demo_ops_run:
  "run demo_ops empty_store =
     \<lparr>urls = [(''abc123'', demo_clicked)],
      analytics = [(''abc123'', \<lparr>totalClicks = 3, uniqueClicks = 2\<rparr>)]\<rparr>"
  by (simp add: run_def demo_ops_def demo_calls_def demo_clicked_def demo_entry_def demo_click_data_def
      create_def addClick_def empty_store_def new_click_def or_empty_def Let_def
      card_insert_if)

text \<open>
  C10: after any sequence of \<open>create\<close>, \<open>findByShortcode\<close>, \<open>addClick\<close>,
  \<open>getAnalytics\<close> and \<open>cleanupExpired\<close> calls on the empty store, the two maps have the
  same keys, the analytics entry of every stored shortcode has \<open>totalClicks\<close> equal to
  the length of the record's \<open>clicks\<close>, and \<open>addClick\<close> never reads a missing
  analytics entry.
\<close>

theorem reachable_maps_agree:
  "fst ` set (urls (run ops empty_store)) = fst ` set (analytics (run ops empty_store)) \<and>
   (\<forall>sc u. map_of (urls (run ops empty_store)) sc = Some u \<longrightarrow>
      (\<exists>a. map_of (analytics (run ops empty_store)) sc = Some a \<and>
           totalClicks a = length (clicks u))) \<and>
   (\<forall>tcheck tstamp sc clickData.
      fst (addClick (run ops empty_store) tcheck tstamp sc clickData) \<noteq> Threw TypeError)"
proof (intro conjI allI impI)
  let ?s = "run ops empty_store"
  have inv: "store_inv ?s" by (rule store_inv_reachable)
  show "fst ` set (urls ?s) = fst ` set (analytics ?s)"
    by (rule store_inv_keys [OF inv])
  show "\<exists>a. map_of (analytics ?s) sc = Some a \<and> totalClicks a = length (clicks u)"
    if "map_of (urls ?s) sc = Some u" for sc u
    using store_inv_lookup [OF inv that] by (auto simp: counts_agree_def)
  show "fst (addClick ?s tcheck tstamp sc clickData) \<noteq> Threw TypeError"
    for tcheck tstamp sc clickData
  proof (cases "map_of (urls ?s) sc")
    case None
    then show ?thesis by (simp add: addClick_def)
  next
    case (Some u)
    then obtain a where a: "map_of (analytics ?s) sc = Some a"
      using store_inv_lookup [OF inv] by blast
    show ?thesis
    proof (cases "tcheck > expiresAt u")
      case True
      then show ?thesis using Some by (simp add: addClick_def)
    next
      case False
      then show ?thesis by (simp add: addClick_live [OF Some a False])
    qed
  qed
qed

theorem reachable_maps_agree_witness:
  "fst ` set (urls (run demo_ops empty_store)) = fst ` set (analytics (run demo_ops empty_store)) \<and>
   map_of (urls (run demo_ops empty_store)) ''abc123'' = Some demo_clicked \<and>
   (\<exists>a. map_of (analytics (run demo_ops empty_store)) ''abc123'' = Some a \<and>
        totalClicks a = length (clicks demo_clicked)) \<and>
   fst (addClick (run demo_ops empty_store) 40 41 ''abc123'' (demo_click_data ''10.0.0.3''))
     \<noteq> Threw TypeError"
  using reachable_maps_agree [of demo_ops]
  by (simp add: demo_ops_run demo_clicked_def demo_entry_def)


section \<open>Unique clickers\<close>

text \<open>
  C6: for a record of a reachable store that is live at the reading \<open>now\<close>,
  \<open>getAnalytics\<close> returns a report whose \<open>uniqueClicks\<close> is the number of distinct
  \<open>ip\<close> values among the record's clicks.
\<close>

theorem getAnalytics_unique_clickers:
  assumes "map_of (urls (run ops empty_store)) sc = Some u" and "now \<le> expiresAt u"
  shows "\<exists>rep. fst (getAnalytics (run ops empty_store) now sc) = Returned (Some rep) \<and>
           rep_clicks rep = clicks u \<and>
           rep_uniqueClicks rep = card (set (map ip (clicks u)))"
proof -
  obtain a where a: "map_of (analytics (run ops empty_store)) sc = Some a" "counts_agree u a"
    using store_inv_lookup [OF store_inv_reachable assms(1)] by blast
  then show ?thesis
    using assms by (simp add: getAnalytics_def counts_agree_def)
qed

theorem getAnalytics_unique_clickers_witness:
  "map_of (urls (run demo_ops empty_store)) ''abc123'' = Some demo_clicked \<and>
   500 \<le> expiresAt demo_clicked \<and>
   (\<exists>rep. fst (getAnalytics (run demo_ops empty_store) 500 ''abc123'') = Returned (Some rep) \<and>
      rep_clicks rep = clicks demo_clicked \<and>
      rep_uniqueClicks rep = card (set (map ip (clicks demo_clicked)))) \<and>
   card (set (map ip (clicks demo_clicked))) = 2"
  using getAnalytics_unique_clickers [of demo_ops "''abc123''" demo_clicked 500]
  by (simp add: demo_ops_run demo_clicked_def demo_entry_def card_insert_if)

section \<open>Create and lookup\<close>

lemma create_absent:
  assumes "map_of (urls s) sc = None"
  shows "create s td tc sc url exp =
    (Returned \<lparr>entry_id = sc, shortcode = sc, originalUrl = url,
                expiresAt = (case exp of Some e \<Rightarrow> e | None \<Rightarrow> td + 30 * 60 * 1000),
                createdAt = tc, clicks = []\<rparr>,
     s\<lparr>urls := AList.update sc
           \<lparr>entry_id = sc, shortcode = sc, originalUrl = url,
             expiresAt = (case exp of Some e \<Rightarrow> e | None \<Rightarrow> td + 30 * 60 * 1000),
             createdAt = tc, clicks = []\<rparr> (urls s),
       analytics := AList.update sc \<lparr>totalClicks = 0, uniqueClicks = 0\<rparr> (analytics s)\<rparr>)"
  using assms by (simp add: create_def Let_def)

lemma create_present:
  assumes "map_of (urls s) sc = Some u"
  shows "create s td tc sc url exp = (Threw ShortcodeAlreadyExists, s)"
  using assms by (simp add: create_def)

text \<open>
  C8: when \<open>create\<close> returns a record and the next \<open>findByShortcode\<close> of its shortcode
  reads the clock not after the record's \<open>expiresAt\<close>, the lookup returns that same
  record, whose \<open>originalUrl\<close>, \<open>createdAt\<close> and \<open>expiresAt\<close> are the ones \<open>create\<close> set,
  with no clicks; the store is left as \<open>create\<close> left it.
\<close>

theorem create_then_findByShortcode:
  assumes "create s td tc sc url exp = (Returned e, s1)" and "now \<le> expiresAt e"
  shows "findByShortcode s1 now sc = (Some e, s1) \<and>
         originalUrl e = url \<and> createdAt e = tc \<and>
         expiresAt e = (case exp of Some x \<Rightarrow> x | None \<Rightarrow> td + 30 * 60 * 1000) \<and>
         clicks e = []"
proof (cases "map_of (urls s) sc")
  case None
  from assms(1) have e: "e = \<lparr>entry_id = sc, shortcode = sc, originalUrl = url,
                expiresAt = (case exp of Some e \<Rightarrow> e | None \<Rightarrow> td + 30 * 60 * 1000),
                createdAt = tc, clicks = []\<rparr>"
    and s1: "map_of (urls s1) sc = Some e"
    unfolding create_absent [OF None] by (auto simp: update_conv')
  from s1 assms(2) have "findByShortcode s1 now sc = (Some e, s1)"
    by (simp add: findByShortcode_def)
  then show ?thesis by (simp add: e)
next
  case (Some u)
  with assms(1) show ?thesis by (simp add: create_present)
qed

theorem create_then_findByShortcode_witness:
  "create empty_store 0 5 ''abc123'' ''https://example.com/'' None
     = (Returned (demo_entry\<lparr>expiresAt := 1800000, createdAt := 5\<rparr>),
        \<lparr>urls = [(''abc123'', demo_entry\<lparr>expiresAt := 1800000, createdAt := 5\<rparr>)],
         analytics = [(''abc123'', \<lparr>totalClicks = 0, uniqueClicks = 0\<rparr>)]\<rparr>) \<and>
   6 \<le> expiresAt (demo_entry\<lparr>expiresAt := 1800000, createdAt := 5\<rparr>) \<and>
   fst (findByShortcode
     \<lparr>urls = [(''abc123'', demo_entry\<lparr>expiresAt := 1800000, createdAt := 5\<rparr>)],
      analytics = [(''abc123'', \<lparr>totalClicks = 0, uniqueClicks = 0\<rparr>)]\<rparr> 6 ''abc123'')
     = Some (demo_entry\<lparr>expiresAt := 1800000, createdAt := 5\<rparr>) \<and>
   clicks (demo_entry\<lparr>expiresAt := 1800000, createdAt := 5\<rparr>) = []"
  using create_then_findByShortcode [of empty_store 0 5 "''abc123''" "''https://example.com/''"
      None "demo_entry\<lparr>expiresAt := 1800000, createdAt := 5\<rparr>"
      "\<lparr>urls = [(''abc123'', demo_entry\<lparr>expiresAt := 1800000, createdAt := 5\<rparr>)],
         analytics = [(''abc123'', \<lparr>totalClicks = 0, uniqueClicks = 0\<rparr>)]\<rparr>" 6]
  by (simp add: create_def empty_store_def demo_entry_def Let_def)

section \<open>A stale occupant and \<open>create\<close>\<close>

text \<open>
  C1 as stated fails: the store's \<open>create\<close> tests only whether the key is present. The
  record of \<open>abc123\<close> expired at 1000; \<open>create\<close> at 2000 throws and leaves the store as
  it was.
\<close>

theorem create_stale_occupant_counterexample:
  "map_of (urls demo_store) ''abc123'' = Some demo_entry \<and>
   expiresAt demo_entry < 2000 \<and>
   create demo_store 2000 2000 ''abc123'' ''https://other.example/'' (Some 5000)
     = (Threw ShortcodeAlreadyExists, demo_store)"
  by (simp add: demo_store_eq demo_entry_def create_def)

text \<open>
  C1, amended: for a shortcode whose stored record has expired, \<open>create\<close> alone throws
  \<open>Shortcode already exists\<close>; the \<open>findByShortcode\<close> that \<open>UrlService.createShortUrl\<close>
  makes first returns \<open>null\<close> and evicts the stale entry, and \<open>create\<close> on the store it
  leaves succeeds: a fresh record with an empty click log and zeroed counts is inserted
  and returned.
\<close>

theorem lookup_then_create_replaces_stale:
  assumes "map_of (urls s) sc = Some u" and "expiresAt u < tfind"
  shows "create s td tc sc url exp = (Threw ShortcodeAlreadyExists, s) \<and>
         findByShortcode s tfind sc = (None, evict sc s) \<and>
         map_of (urls (evict sc s)) sc = None \<and>
         (\<exists>e s2. create (evict sc s) td tc sc url exp = (Returned e, s2) \<and>
                 map_of (urls s2) sc = Some e \<and>
                 map_of (analytics s2) sc = Some \<lparr>totalClicks = 0, uniqueClicks = 0\<rparr> \<and>
                 shortcode e = sc \<and> originalUrl e = url \<and> createdAt e = tc \<and>
                 expiresAt e = (case exp of Some x \<Rightarrow> x | None \<Rightarrow> td + 30 * 60 * 1000) \<and>
                 clicks e = [])"
proof -
  have gone: "map_of (urls (evict sc s)) sc = None" by (simp add: urls_evict)
  show ?thesis
    using assms gone
    by (simp add: create_present findByShortcode_present create_absent [OF gone] update_conv')
qed

theorem lookup_then_create_replaces_stale_witness:
  "map_of (urls demo_store) ''abc123'' = Some demo_entry \<and>
   expiresAt demo_entry < 2000 \<and>
   findByShortcode demo_store 2000 ''abc123'' = (None, empty_store) \<and>
   create empty_store 2001 2001 ''abc123'' ''https://other.example/'' (Some 5000)
     = (Returned \<lparr>entry_id = ''abc123'', shortcode = ''abc123'',
                   originalUrl = ''https://other.example/'', expiresAt = 5000,
                   createdAt = 2001, clicks = []\<rparr>,
        \<lparr>urls = [(''abc123'', \<lparr>entry_id = ''abc123'', shortcode = ''abc123'',
                   originalUrl = ''https://other.example/'', expiresAt = 5000,
                   createdAt = 2001, clicks = []\<rparr>)],
          analytics = [(''abc123'', \<lparr>totalClicks = 0, uniqueClicks = 0\<rparr>)]\<rparr>)"
  using lookup_then_create_replaces_stale [of demo_store "''abc123''" demo_entry 2000
      2001 2001 "''https://other.example/''" "Some 5000"]
  by (simp add: demo_store_eq demo_entry_def evict_def empty_store_def create_def Let_def)

section \<open>Expiry is permanent\<close>

lemma perform_absent:
  assumes "map_of (urls s) sc = None" and "lookup_after sc t op"
  shows "not_found (fst (perform op s)) \<and> snd (perform op s) = s"
  using assms
  by (cases op) (simp_all add: findByShortcode_def addClick_def getAnalytics_def)

lemma perform_expired:
  assumes "map_of (urls s) sc = Some u" and "lookup_after sc (expiresAt u) op"
  shows "not_found (fst (perform op s)) \<and> snd (perform op s) = evict sc s"
  using assms
  by (cases op) (simp_all add: findByShortcode_def addClick_def getAnalytics_def)

lemma run_trace_absent:
  assumes "map_of (urls s) sc = None" and "\<forall>op\<in>set ops. lookup_after sc t op"
  shows "list_all not_found (fst (run_trace ops s)) \<and> snd (run_trace ops s) = s"
  using assms
proof (induction ops)
  case Nil
  then show ?case by simp
next
  case (Cons op ops)
  from Cons.prems have "lookup_after sc t op" by simp
  from perform_absent [OF Cons.prems(1) this]
  have "not_found (fst (perform op s))" and "snd (perform op s) = s" by simp_all
  with Cons show ?case by simp
qed

text \<open>
  C3: for a stored record, every \<open>findByShortcode\<close>, \<open>addClick\<close> and \<open>getAnalytics\<close> call
  for its shortcode in a sequence of such calls that all read the clock after
  \<open>expiresAt\<close> returns NotFound; the first call removes the record from both maps, and
  it is absent at the end of the sequence.
\<close>

theorem expired_lookups_not_found:
  assumes "map_of (urls s) sc = Some u"
    and "\<forall>op\<in>set (first # rest). lookup_after sc (expiresAt u) op"
  shows "list_all not_found (fst (run_trace (first # rest) s)) \<and>
         map_of (urls (snd (perform first s))) sc = None \<and>
         map_of (analytics (snd (perform first s))) sc = None \<and>
         map_of (urls (run (first # rest) s)) sc = None \<and>
         map_of (analytics (run (first # rest) s)) sc = None"
proof -
  from assms have first: "not_found (fst (perform first s))" "snd (perform first s) = evict sc s"
    using perform_expired [of s sc u first] by simp_all
  have gone: "map_of (urls (evict sc s)) sc = None" "map_of (analytics (evict sc s)) sc = None"
    by (simp_all add: urls_evict analytics_evict)
  from assms(2) have "\<forall>op\<in>set rest. lookup_after sc (expiresAt u) op" by simp
  from run_trace_absent [OF gone(1) this]
  have rest: "list_all not_found (fst (run_trace rest (evict sc s)))"
    "snd (run_trace rest (evict sc s)) = evict sc s" by simp_all
  show ?thesis using first gone rest by (simp add: run_def)
qed

theorem expired_lookups_not_found_witness:
  "map_of (urls demo_store) ''abc123'' = Some demo_entry \<and>
   list_all (lookup_after ''abc123'' (expiresAt demo_entry)) demo_lookups \<and>
   fst (run_trace demo_lookups demo_store)
     = [Analytics (Returned None), Clicked (Returned False), Found None] \<and>
   list_all not_found (fst (run_trace demo_lookups demo_store)) \<and>
   map_of (urls (snd (perform (GetAnalytics 1001 ''abc123'') demo_store))) ''abc123'' = None \<and>
   map_of (urls (run demo_lookups demo_store)) ''abc123'' = None"
  using expired_lookups_not_found [of demo_store "''abc123''" demo_entry
      "GetAnalytics 1001 ''abc123''"
      "[AddClick 1002 1003 ''abc123'' (demo_click_data ''10.0.0.1''),
        FindByShortcode 5000 ''abc123'']"]
  by (simp add: demo_lookups_def demo_store_eq demo_entry_def run_def
      getAnalytics_def addClick_def findByShortcode_def evict_def)

section \<open>Click accumulation\<close>

lemma clicks_accumulate:
  assumes "store_inv s" and "map_of (urls s) sc = Some u"
    and "\<forall>op\<in>set calls. click_while_live sc (expiresAt u) op"
  shows "fst (run_trace calls s) = replicate (length calls) (Clicked (Returned True)) \<and>
         (\<exists>u' a'. map_of (urls (run calls s)) sc = Some u' \<and>
                  map_of (analytics (run calls s)) sc = Some a' \<and>
                  clicks u' = clicks u @ map click_of calls \<and>
                  totalClicks a' = length (clicks u) + length calls)"
  using assms
proof (induction calls arbitrary: s u)
  case Nil
  then show ?case
    using store_inv_lookup [OF Nil(1) Nil(2)] by (auto simp: run_def counts_agree_def)
next
  case (Cons op calls)
  from Cons.prems(3) obtain tcheck tstamp cd where
    op: "op = AddClick tcheck tstamp sc cd" and live: "\<not> tcheck > expiresAt u"
    by (cases op) auto
  obtain a where a: "map_of (analytics s) sc = Some a"
    using store_inv_lookup [OF Cons.prems(1) Cons.prems(2)] by blast
  let ?u1 = "u\<lparr>clicks := clicks u @ [new_click tstamp cd]\<rparr>"
  let ?s1 = "snd (perform op s)"
  have res: "fst (perform op s) = Clicked (Returned True)"
    by (simp add: op addClick_live [OF Cons.prems(2) a live])
  have u1: "map_of (urls ?s1) sc = Some ?u1"
    by (simp add: op addClick_live [OF Cons.prems(2) a live] update_conv')
  have inv1: "store_inv ?s1" by (rule store_inv_perform [OF Cons.prems(1)])
  have rest: "\<forall>op\<in>set calls. click_while_live sc (expiresAt ?u1) op"
    using Cons.prems(3) by simp
  from Cons.IH [OF inv1 u1 rest] show ?case
    using res by (simp add: run_def op)
qed

lemma addClick_failed:
  assumes "fst (addClick s tcheck tstamp sc clickData) = Returned False"
  shows "snd (addClick s tcheck tstamp sc clickData) = s \<or>
         snd (addClick s tcheck tstamp sc clickData) = evict sc s"
  using assms
  by (auto simp: addClick_def Let_def split: option.splits if_splits)

text \<open>
  C7: on a store reachable from the empty store, \<open>addClick\<close> calls for a stored record
  that each read the clock not after its \<open>expiresAt\<close> all return \<open>true\<close>; after \<open>N\<close>
  of them the record's \<open>clicks\<close> is the old sequence followed by the \<open>N\<close> new clicks in
  call order, and \<open>totalClicks\<close> is the old length plus \<open>N\<close> (so \<open>N\<close> and \<open>N\<close> for a
  fresh record). An \<open>addClick\<close> that returns \<open>false\<close>, on any store, leaves every record
  and every analytics entry that is still stored as it was.
\<close>

theorem addClick_accumulates:
  "(map_of (urls (run ops empty_store)) sc = Some u \<and>
    (\<forall>op\<in>set calls. click_while_live sc (expiresAt u) op) \<longrightarrow>
      fst (run_trace calls (run ops empty_store))
        = replicate (length calls) (Clicked (Returned True)) \<and>
      (\<exists>u' a'. map_of (urls (run calls (run ops empty_store))) sc = Some u' \<and>
               map_of (analytics (run calls (run ops empty_store))) sc = Some a' \<and>
               clicks u' = clicks u @ map click_of calls \<and>
               totalClicks a' = length (clicks u) + length calls)) \<and>
   (fst (addClick s tcheck tstamp k clickData) = Returned False \<longrightarrow>
      (\<forall>k' r. map_of (urls (snd (addClick s tcheck tstamp k clickData))) k' = Some r \<longrightarrow>
              map_of (urls s) k' = Some r) \<and>
      (\<forall>k' a. map_of (analytics (snd (addClick s tcheck tstamp k clickData))) k' = Some a \<longrightarrow>
              map_of (analytics s) k' = Some a))"
proof (intro conjI impI allI)
  assume h: "map_of (urls (run ops empty_store)) sc = Some u \<and>
    (\<forall>op\<in>set calls. click_while_live sc (expiresAt u) op)"
  note acc = clicks_accumulate [OF store_inv_reachable, of ops sc u calls]
  from h acc show "fst (run_trace calls (run ops empty_store))
        = replicate (length calls) (Clicked (Returned True))" by blast
  from h acc show "\<exists>u' a'. map_of (urls (run calls (run ops empty_store))) sc = Some u' \<and>
               map_of (analytics (run calls (run ops empty_store))) sc = Some a' \<and>
               clicks u' = clicks u @ map click_of calls \<and>
               totalClicks a' = length (clicks u) + length calls" by blast
next
  fix k' r
  assume "fst (addClick s tcheck tstamp k clickData) = Returned False"
    and "map_of (urls (snd (addClick s tcheck tstamp k clickData))) k' = Some r"
  then show "map_of (urls s) k' = Some r"
    using addClick_failed [of s tcheck tstamp k clickData]
    by (auto simp: urls_evict split: if_splits)
next
  fix k' a
  assume "fst (addClick s tcheck tstamp k clickData) = Returned False"
    and "map_of (analytics (snd (addClick s tcheck tstamp k clickData))) k' = Some a"
  then show "map_of (analytics s) k' = Some a"
    using addClick_failed [of s tcheck tstamp k clickData]
    by (auto simp: analytics_evict split: if_splits)
qed


theorem addClick_accumulates_witness:
  "map_of (urls (run [Create 0 0 ''abc123'' ''https://example.com/'' (Some 1000)] empty_store))
      ''abc123'' = Some demo_entry \<and>
   list_all (click_while_live ''abc123'' (expiresAt demo_entry)) demo_calls \<and>
   fst (run_trace demo_calls
          (run [Create 0 0 ''abc123'' ''https://example.com/'' (Some 1000)] empty_store))
     = [Clicked (Returned True), Clicked (Returned True), Clicked (Returned True)] \<and>
   (\<exists>u' a'.
      map_of (urls (run demo_calls
        (run [Create 0 0 ''abc123'' ''https://example.com/'' (Some 1000)] empty_store)))
        ''abc123'' = Some u' \<and>
      map_of (analytics (run demo_calls
        (run [Create 0 0 ''abc123'' ''https://example.com/'' (Some 1000)] empty_store)))
        ''abc123'' = Some a' \<and>
      clicks u' = map click_of demo_calls \<and> length (clicks u') = 3 \<and> totalClicks a' = 3) \<and>
   fst (addClick demo_store 10 11 ''zzz999'' (demo_click_data ''10.0.0.1'')) = Returned False \<and>
   map_of (urls (snd (addClick demo_store 10 11 ''zzz999'' (demo_click_data ''10.0.0.1''))))
      ''abc123'' = Some demo_entry \<and>
   map_of (urls demo_store) ''abc123'' = Some demo_entry \<and>
   map_of (analytics (snd (addClick demo_store 10 11 ''zzz999'' (demo_click_data ''10.0.0.1''))))
      ''abc123'' = Some \<lparr>totalClicks = 0, uniqueClicks = 0\<rparr> \<and>
   map_of (analytics demo_store) ''abc123'' = Some \<lparr>totalClicks = 0, uniqueClicks = 0\<rparr>"
proof -
  have fresh: "run [Create 0 0 ''abc123'' ''https://example.com/'' (Some 1000)] empty_store
                 = demo_store"
    by (simp add: run_def demo_store_def)
  have stored: "map_of (urls demo_store) ''abc123'' = Some demo_entry"
    by (simp add: demo_store_eq)
  have live: "\<forall>op\<in>set demo_calls. click_while_live ''abc123'' (expiresAt demo_entry) op"
    by (simp add: demo_calls_def demo_entry_def)
  have missing: "fst (addClick demo_store 10 11 ''zzz999'' (demo_click_data ''10.0.0.1''))
                   = Returned False"
    by (simp add: addClick_def demo_store_eq)
  have len: "length demo_calls = 3" "clicks demo_entry = []"
    by (simp_all add: demo_calls_def demo_entry_def)
  note inst = addClick_accumulates
    [of "[Create 0 0 ''abc123'' ''https://example.com/'' (Some 1000)]" "''abc123''" demo_entry
        demo_calls demo_store 10 11 "''zzz999''" "demo_click_data ''10.0.0.1''"]
  from inst fresh stored live len
  have part1: "fst (run_trace demo_calls demo_store)
      = [Clicked (Returned True), Clicked (Returned True), Clicked (Returned True)]"
    and part2: "\<exists>u' a'. map_of (urls (run demo_calls demo_store)) ''abc123'' = Some u' \<and>
      map_of (analytics (run demo_calls demo_store)) ''abc123'' = Some a' \<and>
      clicks u' = map click_of demo_calls \<and> length (clicks u') = 3 \<and> totalClicks a' = 3"
    by (auto simp: numeral_3_eq_3)
  have unchanged: "snd (addClick demo_store 10 11 ''zzz999'' (demo_click_data ''10.0.0.1''))
                     = demo_store"
    by (simp add: addClick_def demo_store_eq)
  show ?thesis
    using part1 part2 missing stored live
    by (simp add: fresh unchanged list_all_iff) (simp add: demo_store_eq)
qed

section \<open>Generating a unique shortcode\<close>

lemma findByShortcode_none_absent:
  "fst (findByShortcode s now sc) = None \<Longrightarrow>
     map_of (urls (snd (findByShortcode s now sc))) sc = None"
  by (cases "map_of (urls s) sc")
    (simp_all add: findByShortcode_def urls_evict split: if_splits)

lemma findByShortcode_none_iff:
  "(fst (findByShortcode s now sc) = None) =
     (case map_of (urls s) sc of None \<Rightarrow> True | Some r \<Rightarrow> expiresAt r < now)"
  by (cases "map_of (urls s) sc") (simp_all add: findByShortcode_def)

lemma findByShortcode_some_unchanged:
  "fst (findByShortcode s now sc) \<noteq> None \<Longrightarrow> snd (findByShortcode s now sc) = s"
  by (cases "map_of (urls s) sc") (simp_all add: findByShortcode_def split: if_splits)

lemma generateShortcode_pos: "snd (generateShortcode e pos len) = pos + len"
  by (simp add: generateShortcode_def)

lemma loop_returned:
  "generateUniqueShortcode_loop e clk m attempt s pos = (Returned sc, s', pos') \<Longrightarrow>
     map_of (urls s') sc = None \<and>
     (\<exists>i. attempt \<le> i \<and> i < m \<and> fst (findByShortcode s (clk i) sc) = None)"
proof (induction e clk m attempt s pos rule: generateUniqueShortcode_loop.induct)
  case (1 e clk m attempt s pos)
  let ?g = "generateShortcode e pos 6"
  let ?f = "findByShortcode s (clk attempt) (fst ?g)"
  from "1.prems" have lt: "attempt < m"
    by (cases "attempt < m") (simp_all add: generateUniqueShortcode_loop.simps [of e clk m attempt])
  show ?case
  proof (cases "fst ?f = None")
    case True
    with lt "1.prems" have "sc = fst ?g" "s' = snd ?f"
      by (auto simp: generateUniqueShortcode_loop.simps [of e clk m attempt] Let_def)
    with True lt show ?thesis
      using findByShortcode_none_absent [of s "clk attempt" "fst ?g"] by auto
  next
    case False
    then have same: "snd ?f = s" by (rule findByShortcode_some_unchanged)
    from False lt "1.prems"
    have "generateUniqueShortcode_loop e clk m (attempt + 1) (snd ?f) (snd ?g) = (Returned sc, s', pos')"
      by (simp add: generateUniqueShortcode_loop.simps [of e clk m attempt] Let_def
          del: not_None_eq)
    from "1.IH" [OF lt refl refl False this] same show ?thesis
      by (auto intro: Suc_leD)
  qed
qed

lemma loop_exhausted:
  "(\<forall>i. attempt \<le> i \<and> i < m \<longrightarrow>
      fst (findByShortcode s (clk i)
             (fst (generateShortcode e (pos + 6 * (i - attempt)) 6))) \<noteq> None) \<Longrightarrow>
   generateUniqueShortcode_loop e clk m attempt s pos
     = (Threw ExhaustedAttempts, s, pos + 6 * (m - attempt))"
proof (induction e clk m attempt s pos rule: generateUniqueShortcode_loop.induct)
  case (1 e clk m attempt s pos)
  let ?g = "generateShortcode e pos 6"
  let ?f = "findByShortcode s (clk attempt) (fst ?g)"
  show ?case
  proof (cases "attempt < m")
    case False
    then show ?thesis by (simp add: generateUniqueShortcode_loop.simps [of e clk m attempt])
  next
    case True
    with "1.prems" have coll: "fst ?f \<noteq> None" by (auto dest: spec [of _ attempt])
    then have same: "snd ?f = s" by (rule findByShortcode_some_unchanged)
    have rest: "\<forall>i. attempt + 1 \<le> i \<and> i < m \<longrightarrow>
      fst (findByShortcode (snd ?f) (clk i)
             (fst (generateShortcode e (snd ?g + 6 * (i - (attempt + 1))) 6))) \<noteq> None"
    proof (intro allI impI)
      fix i assume i: "attempt + 1 \<le> i \<and> i < m"
      then have "i - attempt = Suc (i - (attempt + 1))" by arith
      then have eq: "snd ?g + 6 * (i - (attempt + 1)) = pos + 6 * (i - attempt)"
        by (simp add: generateShortcode_pos)
      from i have "attempt \<le> i \<and> i < m" by simp
      with "1.prems" have "fst (findByShortcode s (clk i)
             (fst (generateShortcode e (pos + 6 * (i - attempt)) 6))) \<noteq> None"
        by blast
      then show "fst (findByShortcode (snd ?f) (clk i)
             (fst (generateShortcode e (snd ?g + 6 * (i - (attempt + 1))) 6))) \<noteq> None"
        unfolding eq same .
    qed
    from True have step: "m - attempt = Suc (m - (attempt + 1))" by arith
    from "1.IH" [OF True refl refl coll rest] True
    have "generateUniqueShortcode_loop e clk m (attempt + 1) (snd ?f) (snd ?g)
            = (Threw ExhaustedAttempts, s, pos + 6 * (m - attempt))"
      by (simp add: same generateShortcode_pos step)
    with True coll show ?thesis
      by (simp add: generateUniqueShortcode_loop.simps [of e clk m attempt] Let_def
          del: not_None_eq)
  qed
qed

lemma loop_pos_bound:
  "snd (snd (generateUniqueShortcode_loop e clk m attempt s pos)) \<le> pos + 6 * (m - attempt)"
proof (induction e clk m attempt s pos rule: generateUniqueShortcode_loop.induct)
  case (1 e clk m attempt s pos)
  let ?g = "generateShortcode e pos 6"
  let ?f = "findByShortcode s (clk attempt) (fst ?g)"
  show ?case
  proof (cases "attempt < m")
    case False
    then show ?thesis by (simp add: generateUniqueShortcode_loop.simps [of e clk m attempt])
  next
    case True
    then have step: "m - attempt = Suc (m - (attempt + 1))" by arith
    show ?thesis
    proof (cases "fst ?f = None")
      case None: True
      with \<open>attempt < m\<close> show ?thesis
        by (simp add: generateUniqueShortcode_loop.simps [of e clk m attempt] Let_def
            generateShortcode_pos)
    next
      case False
      from "1.IH" [OF True refl refl False] True False show ?thesis
        by (simp add: generateUniqueShortcode_loop.simps [of e clk m attempt] Let_def
            generateShortcode_pos step del: not_None_eq)
    qed
  qed
qed

lemma demo_taken_eq:
  "demo_taken = \<lparr>urls = [(''aaaaaa'', demo_entry\<lparr>entry_id := ''aaaaaa'', shortcode := ''aaaaaa''\<rparr>)],
                  analytics = [(''aaaaaa'', \<lparr>totalClicks = 0, uniqueClicks = 0\<rparr>)]\<rparr>"
  by (simp add: demo_taken_def demo_entry_def create_def empty_store_def Let_def)

lemma demo_env_code: "fst (generateShortcode demo_env p 6) = ''aaaaaa''"
  by (simp add: generateShortcode_def demo_env_def chars_def upt_rec)

text \<open>
  C5: when \<open>generateUniqueShortcode\<close> returns a shortcode, that shortcode is not a key
  of the store it leaves, and at one of its lookups it was absent from the given store
  or its record had expired. When every one of the \<open>maxAttempts\<close> (default 10) generated
  codes has a live record, it throws after exactly \<open>maxAttempts\<close> generations (six
  random bytes each) and leaves the store unchanged. It never draws more than
  \<open>maxAttempts\<close> codes.
\<close>

theorem generateUniqueShortcode_bounded:
  "(generateUniqueShortcode e clk maxAttempts s pos = (Returned sc, s', pos') \<longrightarrow>
      map_of (urls s') sc = None \<and>
      (\<exists>i<attempt_limit maxAttempts.
          case map_of (urls s) sc of None \<Rightarrow> True | Some r \<Rightarrow> expiresAt r < clk i)) \<and>
   ((\<forall>i<attempt_limit maxAttempts.
        \<exists>r. map_of (urls s) (fst (generateShortcode e (pos + 6 * i) 6)) = Some r \<and>
            clk i \<le> expiresAt r) \<longrightarrow>
      generateUniqueShortcode e clk maxAttempts s pos
        = (Threw ExhaustedAttempts, s, pos + 6 * attempt_limit maxAttempts)) \<and>
   snd (snd (generateUniqueShortcode e clk maxAttempts s pos))
     \<le> pos + 6 * attempt_limit maxAttempts"
proof (intro conjI impI)
  assume "generateUniqueShortcode e clk maxAttempts s pos = (Returned sc, s', pos')"
  then have r: "map_of (urls s') sc = None \<and>
     (\<exists>i. 0 \<le> i \<and> i < attempt_limit maxAttempts \<and> fst (findByShortcode s (clk i) sc) = None)"
    unfolding generateUniqueShortcode_def by (rule loop_returned)
  then show "map_of (urls s') sc = None" by simp
  from r show "\<exists>i<attempt_limit maxAttempts.
          case map_of (urls s) sc of None \<Rightarrow> True | Some r \<Rightarrow> expiresAt r < clk i"
    by (auto simp: findByShortcode_none_iff)
next
  assume all: "\<forall>i<attempt_limit maxAttempts.
        \<exists>r. map_of (urls s) (fst (generateShortcode e (pos + 6 * i) 6)) = Some r \<and>
            clk i \<le> expiresAt r"
  have "\<forall>i. 0 \<le> i \<and> i < attempt_limit maxAttempts \<longrightarrow>
      fst (findByShortcode s (clk i) (fst (generateShortcode e (pos + 6 * (i - 0)) 6))) \<noteq> None"
  proof (intro allI impI)
    fix i assume "0 \<le> i \<and> i < attempt_limit maxAttempts"
    with all obtain r where
      "map_of (urls s) (fst (generateShortcode e (pos + 6 * i) 6)) = Some r" "clk i \<le> expiresAt r"
      by blast
    then show "fst (findByShortcode s (clk i) (fst (generateShortcode e (pos + 6 * (i - 0)) 6)))
                 \<noteq> None"
      by (simp add: findByShortcode_none_iff)
  qed
  from loop_exhausted [OF this]
  show "generateUniqueShortcode e clk maxAttempts s pos
        = (Threw ExhaustedAttempts, s, pos + 6 * attempt_limit maxAttempts)"
    by (simp add: generateUniqueShortcode_def)
next
  show "snd (snd (generateUniqueShortcode e clk maxAttempts s pos))
     \<le> pos + 6 * attempt_limit maxAttempts"
    using loop_pos_bound [of e clk "attempt_limit maxAttempts" 0 s pos]
    by (simp add: generateUniqueShortcode_def)
qed

theorem generateUniqueShortcode_bounded_witness:
  "generateUniqueShortcode demo_env int None demo_store 0 = (Returned ''aaaaaa'', demo_store, 6) \<and>
   map_of (urls demo_store) ''aaaaaa'' = None \<and>
   list_all (\<lambda>i. \<exists>r. map_of (urls demo_taken) (fst (generateShortcode demo_env (0 + 6 * i) 6))
                          = Some r \<and> int i \<le> expiresAt r) [0..<10] \<and>
   generateUniqueShortcode demo_env int None demo_taken 0
     = (Threw ExhaustedAttempts, demo_taken, 60)"
proof -
  have ret: "generateUniqueShortcode demo_env int None demo_store 0
               = (Returned ''aaaaaa'', demo_store, 6)"
    by (simp add: generateUniqueShortcode_def attempt_limit_def
        generateUniqueShortcode_loop.simps [of _ _ _ 0] demo_env_code generateShortcode_pos
        findByShortcode_def demo_store_eq Let_def)
  have hyp: "\<forall>i<attempt_limit None.
      \<exists>r. map_of (urls demo_taken) (fst (generateShortcode demo_env (0 + 6 * i) 6)) = Some r \<and>
          int i \<le> expiresAt r"
    by (simp add: demo_env_code demo_taken_eq demo_entry_def attempt_limit_def)
  from generateUniqueShortcode_bounded
    [of demo_env int None demo_store 0 "''aaaaaa''" demo_store 6] ret
  have absent: "map_of (urls demo_store) ''aaaaaa'' = None" by blast
  from generateUniqueShortcode_bounded [of demo_env int None demo_taken 0] hyp
  have "generateUniqueShortcode demo_env int None demo_taken 0
          = (Threw ExhaustedAttempts, demo_taken, 0 + 6 * attempt_limit None)" by blast
  then have exhausted: "generateUniqueShortcode demo_env int None demo_taken 0
          = (Threw ExhaustedAttempts, demo_taken, 60)"
    by (simp add: attempt_limit_def)
  from hyp have "list_all (\<lambda>i. \<exists>r. map_of (urls demo_taken)
        (fst (generateShortcode demo_env (0 + 6 * i) 6)) = Some r \<and> int i \<le> expiresAt r) [0..<10]"
    by (simp add: list_all_iff attempt_limit_def)
  with ret absent exhausted show ?thesis by simp
qed

section \<open>Redirecting an expired shortcode\<close>

text \<open>
  For a stored record the redirect answers 404 exactly when the store's lookup reads
  the clock after \<open>expiresAt\<close>, and 410 exactly when the lookup still finds the record
  and the handler's own, later reading is after \<open>expiresAt\<close>.
\<close>

lemma redirect_lookup:
  assumes "sc \<noteq> []" and "map_of (urls s) sc = Some u"
  shows "(status (fst (redirectToUrl clk s sc clickData)) = 404)
           = (expiresAt u < lookup_time clk)"
    and "(status (fst (redirectToUrl clk s sc clickData)) = 410)
           = (lookup_time clk \<le> expiresAt u \<and> expiresAt u < handler_time clk)"
  using assms
  by (auto simp: redirectToUrl_def getUrlByShortcode_def findByShortcode_present
      split: prod.splits outcome.splits)

text \<open>
  C2 on the code: the record of \<open>abc123\<close> expired at 1000; a redirect request at 2000
  is answered 404, not 410, the store's lookup having evicted the record.
\<close>

theorem redirect_expired_answers_404:
  "map_of (urls demo_store) ''abc123'' = Some demo_entry \<and>
   expiresAt demo_entry < 2000 \<and>
   redirectToUrl \<lparr>lookup_time = 2000, handler_time = 2000, click_check_time = 2000,
                   click_stamp_time = 2000\<rparr> demo_store ''abc123'' (demo_click_data ''10.0.0.1'')
     = (\<lparr>status = 404, payload = ErrorJson ''Not Found'' ''Short URL not found''\<rparr>,
        empty_store)"
  by (simp add: redirectToUrl_def getUrlByShortcode_def findByShortcode_def demo_store_eq
      demo_entry_def evict_def empty_store_def)

section \<open>Validity of a new short URL\<close>

lemma chooseShortcode_absent:
  assumes "chooseShortcode e clk s pos custom = (Returned sc, s1, pos1)"
  shows "map_of (urls s1) sc = None"
proof -
  have gen: "map_of (urls s1) sc = None"
    if "generateUniqueShortcode e (loop_time clk) None s pos = (Returned sc, s1, pos1)"
    using that unfolding generateUniqueShortcode_def by (rule loop_returned [THEN conjunct1])
  show ?thesis
  proof (cases custom)
    case None
    with assms gen show ?thesis by (simp add: chooseShortcode_def)
  next
    case (Some c)
    show ?thesis
    proof (cases "c = []")
      case True
      with Some assms gen show ?thesis by (simp add: chooseShortcode_def)
    next
      case False
      with Some assms show ?thesis
        using findByShortcode_none_absent [of s "find_time clk" c]
        by (auto simp: chooseShortcode_def Let_def split: if_splits)
    qed
  qed
qed

lemma service_created:
  assumes "validateAndNormalizeUrl e url = Returned n"
    and "chooseShortcode e clk s pos custom = (Returned sc, s1, pos1)"
  shows "UrlService_createShortUrl e clk s pos url validity custom =
    (Returned \<lparr>res_shortcode = sc, res_originalUrl = n,
                res_shortUrl = base_url e @ ''/'' @ sc,
                res_expiresAt = calc_time clk + (case validity of None \<Rightarrow> 30 | Some v \<Rightarrow> v) * 60 * 1000,
                res_createdAt = create_time clk\<rparr>,
     s1\<lparr>urls := AList.update sc
           \<lparr>entry_id = sc, shortcode = sc, originalUrl = n,
             expiresAt = calc_time clk + (case validity of None \<Rightarrow> 30 | Some v \<Rightarrow> v) * 60 * 1000,
             createdAt = create_time clk, clicks = []\<rparr> (urls s1),
        analytics := AList.update sc \<lparr>totalClicks = 0, uniqueClicks = 0\<rparr> (analytics s1)\<rparr>,
     pos1)"
  using assms create_absent [OF chooseShortcode_absent [OF assms(2)]]
  by (simp add: UrlService_createShortUrl_def calculateExpiryDate_def Let_def)

text \<open>
  C9 as stated fails in its last part: \<open>calculateExpiryDate\<close> and the store's \<open>create\<close>
  each read the clock. With the readings 0 and 1 a request without validity is answered
  201 and stores a record with \<open>expiresAt\<close> 1800000 and \<open>createdAt\<close> 1, which is not
  \<open>createdAt\<close> plus 30 minutes.
\<close>

theorem createShortUrl_expiry_base_counterexample:
  "UrlController_createShortUrl demo_env demo_late_clock empty_store 0 (demo_body JUndefined)
     = (\<lparr>status = 201,
         payload = CreatedJson
           \<lparr>res_shortcode = ''abc12'', res_originalUrl = ''https://example.com/'',
             res_shortUrl = ''http://localhost:5000/abc12'',
             res_expiresAt = 1800000, res_createdAt = 1\<rparr>\<rparr>,
        \<lparr>urls = [(''abc12'',
                   \<lparr>entry_id = ''abc12'', shortcode = ''abc12'',
                     originalUrl = ''https://example.com/'', expiresAt = 1800000,
                     createdAt = 1, clicks = []\<rparr>)],
          analytics = [(''abc12'', \<lparr>totalClicks = 0, uniqueClicks = 0\<rparr>)]\<rparr>,
        0) \<and>
   (1800000 :: int) \<noteq> 1 + 30 * 60 * 1000"
  by (simp add: UrlController_createShortUrl_def UrlService_createShortUrl_def
      validateAndNormalizeUrl_def chooseShortcode_def shortcode_format_def alphanumeric_def
      findByShortcode_def calculateExpiryDate_def create_def empty_store_def
      demo_env_def demo_late_clock_def demo_body_def Let_def)

text \<open>
  C9, amended: \<open>POST /shorturls\<close> with validity 10081 or 0 is answered 400 and changes
  nothing. With validity 10080, or with validity omitted, a request whose URL parses as
  http or https and whose shortcode is assigned is answered 201; the stored record has
  \<open>expiresAt\<close> the clock reading of \<open>calculateExpiryDate\<close> plus 10080 minutes, or plus the
  default 30 minutes when validity is omitted, and \<open>createdAt\<close> the clock reading of the
  store's \<open>create\<close>; \<open>expiresAt\<close> is \<open>createdAt\<close> plus that many minutes exactly when the
  two readings are equal.
\<close>

theorem createShortUrl_validity_bounds:
  "(body_validity body = JNumber 10081 \<or> body_validity body = JNumber 0 \<longrightarrow>
      status (fst (UrlController_createShortUrl e clk s pos body)) = 400 \<and>
      snd (UrlController_createShortUrl e clk s pos body) = (s, pos)) \<and>
   (body_url body = Some url \<and> url \<noteq> [] \<and> validateAndNormalizeUrl e url = Returned n \<and>
    chooseShortcode e clk s pos (body_shortcode body) = (Returned sc, s1, pos1) \<and>
    (body_validity body = JNumber 10080 \<or> body_validity body = JUndefined) \<longrightarrow>
      (\<exists>r rec s2.
         UrlController_createShortUrl e clk s pos body
           = (\<lparr>status = 201, payload = CreatedJson r\<rparr>, s2, pos1) \<and>
         map_of (urls s2) sc = Some rec \<and> res_shortcode r = sc \<and>
         res_expiresAt r = expiresAt rec \<and> res_createdAt r = createdAt rec \<and>
         createdAt rec = create_time clk \<and>
         expiresAt rec = calc_time clk
            + (if body_validity body = JUndefined then 30 else 10080) * 60 * 1000 \<and>
         (expiresAt rec = createdAt rec
              + (if body_validity body = JUndefined then 30 else 10080) * 60 * 1000)
           = (calc_time clk = create_time clk)))"
proof (intro conjI impI)
  assume "body_validity body = JNumber 10081 \<or> body_validity body = JNumber 0"
  then have rej: "UrlController_createShortUrl e clk s pos body
     = (\<lparr>status = 400, payload = ErrorJson ''Bad Request'' ''URL is required''\<rparr>, s, pos) \<or>
    UrlController_createShortUrl e clk s pos body
     = (\<lparr>status = 400, payload = ErrorJson ''Bad Request''
          ''Validity must be a positive number (in minutes) and not exceed 10080 minutes (1 week)''\<rparr>,
        s, pos)"
    by (auto simp: UrlController_createShortUrl_def split: option.splits)
  then show "status (fst (UrlController_createShortUrl e clk s pos body)) = 400" by auto
  from rej show "snd (UrlController_createShortUrl e clk s pos body) = (s, pos)" by auto
next
  assume h: "body_url body = Some url \<and> url \<noteq> [] \<and> validateAndNormalizeUrl e url = Returned n \<and>
    chooseShortcode e clk s pos (body_shortcode body) = (Returned sc, s1, pos1) \<and>
    (body_validity body = JNumber 10080 \<or> body_validity body = JUndefined)"
  let ?v = "case body_validity body of JNumber v \<Rightarrow> Some v | _ \<Rightarrow> None"
  from h have svc: "UrlService_createShortUrl e clk s pos url ?v (body_shortcode body) =
    (Returned \<lparr>res_shortcode = sc, res_originalUrl = n,
                res_shortUrl = base_url e @ ''/'' @ sc,
                res_expiresAt = calc_time clk + (case ?v of None \<Rightarrow> 30 | Some v \<Rightarrow> v) * 60 * 1000,
                res_createdAt = create_time clk\<rparr>,
     s1\<lparr>urls := AList.update sc
           \<lparr>entry_id = sc, shortcode = sc, originalUrl = n,
             expiresAt = calc_time clk + (case ?v of None \<Rightarrow> 30 | Some v \<Rightarrow> v) * 60 * 1000,
             createdAt = create_time clk, clicks = []\<rparr> (urls s1),
        analytics := AList.update sc \<lparr>totalClicks = 0, uniqueClicks = 0\<rparr> (analytics s1)\<rparr>,
     pos1)"
    by (intro service_created) simp_all
  from h have pass: "\<not> (body_validity body \<noteq> JUndefined \<and>
                  (case body_validity body of JNumber v \<Rightarrow> v \<le> 0 \<or> v > 10080 | _ \<Rightarrow> True))"
    by auto
  from h have url: "body_url body = Some url" "url \<noteq> []" by simp_all
  have ctrl: "UrlController_createShortUrl e clk s pos body =
    (\<lparr>status = 201, payload = CreatedJson
        \<lparr>res_shortcode = sc, res_originalUrl = n,
                res_shortUrl = base_url e @ ''/'' @ sc,
                res_expiresAt = calc_time clk + (case ?v of None \<Rightarrow> 30 | Some v \<Rightarrow> v) * 60 * 1000,
                res_createdAt = create_time clk\<rparr>\<rparr>,
     s1\<lparr>urls := AList.update sc
           \<lparr>entry_id = sc, shortcode = sc, originalUrl = n,
             expiresAt = calc_time clk + (case ?v of None \<Rightarrow> 30 | Some v \<Rightarrow> v) * 60 * 1000,
             createdAt = create_time clk, clicks = []\<rparr> (urls s1),
        analytics := AList.update sc \<lparr>totalClicks = 0, uniqueClicks = 0\<rparr> (analytics s1)\<rparr>,
     pos1)"
    unfolding UrlController_createShortUrl_def using pass by (simp add: url svc)
  from h have v: "(case ?v of None \<Rightarrow> 30 | Some v \<Rightarrow> v)
                   = (if body_validity body = JUndefined then 30 else 10080)"
    by auto
  show "\<exists>r rec s2.
         UrlController_createShortUrl e clk s pos body
           = (\<lparr>status = 201, payload = CreatedJson r\<rparr>, s2, pos1) \<and>
         map_of (urls s2) sc = Some rec \<and> res_shortcode r = sc \<and>
         res_expiresAt r = expiresAt rec \<and> res_createdAt r = createdAt rec \<and>
         createdAt rec = create_time clk \<and>
         expiresAt rec = calc_time clk
            + (if body_validity body = JUndefined then 30 else 10080) * 60 * 1000 \<and>
         (expiresAt rec = createdAt rec
              + (if body_validity body = JUndefined then 30 else 10080) * 60 * 1000)
           = (calc_time clk = create_time clk)"
    unfolding ctrl v by (simp add: update_conv')
qed

theorem createShortUrl_validity_bounds_witness:
  "status (fst (UrlController_createShortUrl demo_env demo_clock empty_store 0
                  (demo_body (JNumber 10081)))) = 400 \<and>
   status (fst (UrlController_createShortUrl demo_env demo_clock empty_store 0
                  (demo_body (JNumber 0)))) = 400 \<and>
   validateAndNormalizeUrl demo_env ''https://example.com/'' = Returned ''https://example.com/'' \<and>
   chooseShortcode demo_env demo_clock empty_store 0 (Some ''abc12'')
     = (Returned ''abc12'', empty_store, 0) \<and>
   (\<exists>r rec s2.
      UrlController_createShortUrl demo_env demo_clock empty_store 0 (demo_body (JNumber 10080))
        = (\<lparr>status = 201, payload = CreatedJson r\<rparr>, s2, 0) \<and>
      map_of (urls s2) ''abc12'' = Some rec \<and> expiresAt rec = 604800000) \<and>
   (\<exists>r rec s2.
      UrlController_createShortUrl demo_env demo_clock empty_store 0 (demo_body JUndefined)
        = (\<lparr>status = 201, payload = CreatedJson r\<rparr>, s2, 0) \<and>
      map_of (urls s2) ''abc12'' = Some rec \<and> createdAt rec = 0 \<and>
      expiresAt rec = createdAt rec + 1800000) \<and>
   chooseShortcode demo_env demo_late_clock empty_store 0 (Some ''abc12'')
     = (Returned ''abc12'', empty_store, 0) \<and>
   (\<exists>r rec s2.
      UrlController_createShortUrl demo_env demo_late_clock empty_store 0 (demo_body JUndefined)
        = (\<lparr>status = 201, payload = CreatedJson r\<rparr>, s2, 0) \<and>
      map_of (urls s2) ''abc12'' = Some rec \<and> createdAt rec = 1 \<and>
      expiresAt rec = 1800000)"
proof -
  have url: "validateAndNormalizeUrl demo_env ''https://example.com/''
               = Returned ''https://example.com/''"
    by (simp add: validateAndNormalizeUrl_def demo_env_def)
  have code: "chooseShortcode demo_env demo_clock empty_store 0 (Some ''abc12'')
                = (Returned ''abc12'', empty_store, 0)"
    by (simp add: chooseShortcode_def shortcode_format_def alphanumeric_def findByShortcode_def
        empty_store_def Let_def)
  have too_long: "status (fst (UrlController_createShortUrl demo_env demo_clock empty_store 0
                  (demo_body (JNumber 10081)))) = 400"
    using createShortUrl_validity_bounds
      [of "demo_body (JNumber 10081)" demo_env demo_clock empty_store 0]
    by (simp add: demo_body_def)
  have zero: "status (fst (UrlController_createShortUrl demo_env demo_clock empty_store 0
                  (demo_body (JNumber 0)))) = 400"
    using createShortUrl_validity_bounds
      [of "demo_body (JNumber 0)" demo_env demo_clock empty_store 0]
    by (simp add: demo_body_def)
  have week: "\<exists>r rec s2.
      UrlController_createShortUrl demo_env demo_clock empty_store 0 (demo_body (JNumber 10080))
        = (\<lparr>status = 201, payload = CreatedJson r\<rparr>, s2, 0) \<and>
      map_of (urls s2) ''abc12'' = Some rec \<and> expiresAt rec = 604800000"
    using createShortUrl_validity_bounds
      [of "demo_body (JNumber 10080)" demo_env demo_clock empty_store 0
          "''https://example.com/''" "''https://example.com/''" "''abc12''" empty_store 0]
      url code
    by (simp add: demo_body_def demo_clock_def) blast
  have dflt: "\<exists>r rec s2.
      UrlController_createShortUrl demo_env demo_clock empty_store 0 (demo_body JUndefined)
        = (\<lparr>status = 201, payload = CreatedJson r\<rparr>, s2, 0) \<and>
      map_of (urls s2) ''abc12'' = Some rec \<and> createdAt rec = 0 \<and>
      expiresAt rec = createdAt rec + 1800000"
    using createShortUrl_validity_bounds
      [of "demo_body JUndefined" demo_env demo_clock empty_store 0
          "''https://example.com/''" "''https://example.com/''" "''abc12''" empty_store 0]
      url code
    by (simp add: demo_body_def demo_clock_def) blast
  have code': "chooseShortcode demo_env demo_late_clock empty_store 0 (Some ''abc12'')
                = (Returned ''abc12'', empty_store, 0)"
    by (simp add: chooseShortcode_def shortcode_format_def alphanumeric_def findByShortcode_def
        empty_store_def Let_def)
  have late: "\<exists>r rec s2.
      UrlController_createShortUrl demo_env demo_late_clock empty_store 0 (demo_body JUndefined)
        = (\<lparr>status = 201, payload = CreatedJson r\<rparr>, s2, 0) \<and>
      map_of (urls s2) ''abc12'' = Some rec \<and> createdAt rec = 1 \<and>
      expiresAt rec = 1800000"
    using createShortUrl_validity_bounds
      [of "demo_body JUndefined" demo_env demo_late_clock empty_store 0
          "''https://example.com/''" "''https://example.com/''" "''abc12''" empty_store 0]
      url code'
    by (simp add: demo_body_def demo_late_clock_def) blast
  from too_long zero url code week dflt code' late show ?thesis by blast
qed

section \<open>The service's path to \<open>create\<close>\<close>

text \<open>
  \<open>UrlService.createShortUrl\<close> with a well-formed custom shortcode whose stored record
  has expired at the lookup succeeds and stores a fresh record; and a lookup of the
  shortcode of any successful \<open>createShortUrl\<close>, not after the returned \<open>expiresAt\<close>,
  finds a record with the returned fields and no clicks.
\<close>

lemma service_replaces_stale:
  assumes "map_of (urls s) sc = Some u" and "expiresAt u < find_time clk"
    and "shortcode_format sc" and "validateAndNormalizeUrl e url = Returned n"
  shows "\<exists>r s2. UrlService_createShortUrl e clk s pos url validity (Some sc) = (Returned r, s2, pos) \<and>
           res_shortcode r = sc \<and>
           map_of (urls s2) sc =
             Some \<lparr>entry_id = sc, shortcode = sc, originalUrl = n,
                    expiresAt = res_expiresAt r, createdAt = create_time clk, clicks = []\<rparr>"
proof -
  from assms(3) have "sc \<noteq> []" by (auto simp: shortcode_format_def)
  with assms(1-3) have "chooseShortcode e clk s pos (Some sc) = (Returned sc, evict sc s, pos)"
    by (simp add: chooseShortcode_def findByShortcode_present Let_def)
  from service_created [OF assms(4) this, of validity] show ?thesis
    by (simp add: update_conv')
qed

lemma service_create_then_find:
  assumes "UrlService_createShortUrl e clk s pos url validity custom = (Returned r, s2, pos2)"
    and "now \<le> res_expiresAt r"
  shows "\<exists>rec. findByShortcode s2 now (res_shortcode r) = (Some rec, s2) \<and>
           originalUrl rec = res_originalUrl r \<and> createdAt rec = res_createdAt r \<and>
           expiresAt rec = res_expiresAt r \<and> clicks rec = []"
proof -
  from assms(1) obtain n where n: "validateAndNormalizeUrl e url = Returned n"
    by (cases "validateAndNormalizeUrl e url") (simp_all add: UrlService_createShortUrl_def)
  from assms(1) n obtain sc s1 pos1 where
    c: "chooseShortcode e clk s pos custom = (Returned sc, s1, pos1)"
    by (cases "chooseShortcode e clk s pos custom" rule: prod_cases3)
      (auto simp: UrlService_createShortUrl_def split: outcome.splits)
  from assms(1) have r: "res_shortcode r = sc" "res_originalUrl r = n"
    "res_createdAt r = create_time clk"
    "map_of (urls s2) sc = Some \<lparr>entry_id = sc, shortcode = sc, originalUrl = n,
        expiresAt = res_expiresAt r, createdAt = create_time clk, clicks = []\<rparr>"
    unfolding service_created [OF n c] by (auto simp: update_conv')
  from r(4) assms(2) show ?thesis
    by (simp add: r(1-3) findByShortcode_def)
qed

end
